theory Spec2Isabelle
  imports Main
begin

section \<open>Password policy checker (002 - Password_Policy_Checker/Password_Policy_Checker.py)\<close>

subsection \<open>Python strings\<close>

text \<open>
  A Python \<open>str\<close> is a sequence of Unicode code points and \<open>len\<close> counts code points, so a
  string is a list of natural numbers here. \<open>lit ''abc''\<close> is the Python literal \<open>"abc"\<close> and
  \<open>ch CHR ''a''\<close> the one-character string \<open>'a'\<close>. Comparing two one-character strings with
  \<open><=\<close> compares their code points.
\<close>

type_synonym codepoint = nat
type_synonym pystr = "codepoint list"

abbreviation ch :: "char \<Rightarrow> codepoint" where
  "ch c \<equiv> of_char c"

abbreviation lit :: "string \<Rightarrow> pystr" where
  "lit s \<equiv> map of_char s"

text \<open>
  The script calls four built-in methods whose result depends on Python's Unicode tables:
  \<open>str.lower\<close>, \<open>str.swapcase\<close>, \<open>str.isalnum\<close> (on one character) and the whitespace class
  that \<open>str.strip\<close> removes. They are not code of the script, so the model takes them as a
  parameter: every general theorem below holds whatever these four functions are.
\<close>

record pylib =
  str_lower :: "pystr \<Rightarrow> pystr"
  str_swapcase :: "pystr \<Rightarrow> pystr"
  str_isalnum :: "codepoint \<Rightarrow> bool"
  str_isspace :: "codepoint \<Rightarrow> bool"

text \<open>
  \<open>ascii_lib\<close> is what the four methods compute on ASCII text (code points below 128); it
  leaves every other code point alone. The concrete scenarios, all of them ASCII, are
  evaluated with it.
\<close>

definition between_a_z :: "codepoint \<Rightarrow> bool" where
  "between_a_z character = (ch CHR ''a'' \<le> character \<and> character \<le> ch CHR ''z'')"

definition between_A_Z :: "codepoint \<Rightarrow> bool" where
  "between_A_Z character = (ch CHR ''A'' \<le> character \<and> character \<le> ch CHR ''Z'')"

definition between_0_9 :: "codepoint \<Rightarrow> bool" where
  "between_0_9 character = (ch CHR ''0'' \<le> character \<and> character \<le> ch CHR ''9'')"

definition ascii_lower :: "codepoint \<Rightarrow> codepoint" where
  "ascii_lower c = (if between_A_Z c then c + 32 else c)"

definition ascii_swapcase :: "codepoint \<Rightarrow> codepoint" where
  "ascii_swapcase c =
     (if between_A_Z c then c + 32 else if between_a_z c then c - 32 else c)"

definition ascii_isalnum :: "codepoint \<Rightarrow> bool" where
  "ascii_isalnum c = (between_a_z c \<or> between_A_Z c \<or> between_0_9 c)"

definition ascii_isspace :: "codepoint \<Rightarrow> bool" where
  "ascii_isspace c = (c = 32 \<or> (9 \<le> c \<and> c \<le> 13) \<or> (28 \<le> c \<and> c \<le> 31))"

definition ascii_lib :: pylib where
  "ascii_lib =
     \<lparr>str_lower = map ascii_lower, str_swapcase = map ascii_swapcase,
      str_isalnum = ascii_isalnum, str_isspace = ascii_isspace\<rparr>"

text \<open>\<open>s.strip()\<close>: drop the whitespace at both ends.\<close>

definition strip :: "pylib \<Rightarrow> pystr \<Rightarrow> pystr" where
  "strip L s = rev (dropWhile (str_isspace L) (rev (dropWhile (str_isspace L) s)))"

text \<open>
  \<open>s.translate(str.maketrans(d))\<close> for a dict \<open>d\<close> from one-character strings to
  one-character strings: a character that is a key is replaced, any other is kept.
\<close>

definition translate :: "(codepoint \<times> codepoint) list \<Rightarrow> pystr \<Rightarrow> pystr" where
  "translate t s = map (\<lambda>c. case map_of t c of None \<Rightarrow> c | Some d \<Rightarrow> d) s"

subsection \<open>Score and failed parameters\<close>

record checker =
  score :: int
  failed_parameters :: "pystr list"

definition top_score :: int where
  "top_score = 7"

definition init :: checker where
  "init = \<lparr>score = top_score, failed_parameters = []\<rparr>"

text \<open>The two statements of every failing branch: \<open>score -= 1\<close> and \<open>failed_parameters.append(reason)\<close>.\<close>

definition fail_with :: "pystr \<Rightarrow> checker \<Rightarrow> checker" where
  "fail_with reason st =
     st\<lparr>score := score st - 1, failed_parameters := failed_parameters st @ [reason]\<rparr>"

subsection \<open>The seven checks, in the order of the script\<close>

text \<open>Length checker.\<close>

definition reason_length :: pystr where
  "reason_length = lit ''Password must be longer than 8 characters.''"

definition length_checker :: "pystr \<Rightarrow> checker \<Rightarrow> checker" where
  "length_checker password st =
     (if length password \<le> 8 then fail_with reason_length st else st)"

text \<open>Special letters checker and letter checker: two loops that stop at the first hit.\<close>

definition specials :: "codepoint list" where
  "specials = [ch CHR ''!'', ch CHR ''@'', ch CHR ''$'', ch CHR ''?'']"

fun check_special :: "pystr \<Rightarrow> bool" where
  "check_special [] = False"
| "check_special (character # rest) =
     (if List.member specials character then True else check_special rest)"

fun check_letter :: "pystr \<Rightarrow> bool" where
  "check_letter [] = False"
| "check_letter (character # rest) =
     (if between_a_z character \<or> between_A_Z character then True else check_letter rest)"

definition reason_combine :: pystr where
  "reason_combine =
     lit ''Password Failed: At least one letter and one special character must be present.''"

definition combine_checker :: "pystr \<Rightarrow> checker \<Rightarrow> checker" where
  "combine_checker password st =
     (if \<not> (check_letter password \<and> check_special password)
      then fail_with reason_combine st else st)"

text \<open>Not equal to username checker.\<close>

definition reason_username :: pystr where
  "reason_username = lit ''Password cannot be the same as username.''"

definition username_checker :: "pystr \<Rightarrow> pystr \<Rightarrow> checker \<Rightarrow> checker" where
  "username_checker username password st =
     (if password = username then fail_with reason_username st else st)"

text \<open>
  Case checker: one loop over the whole password that sets two flags; the pair is
  \<open>(check_lower, check_upper)\<close>.
\<close>

fun case_loop :: "pystr \<Rightarrow> bool \<times> bool \<Rightarrow> bool \<times> bool" where
  "case_loop [] flags = flags"
| "case_loop (character # rest) (check_lower, check_upper) =
     (if between_a_z character then case_loop rest (True, check_upper)
      else if between_A_Z character then case_loop rest (check_lower, True)
      else case_loop rest (check_lower, check_upper))"

definition check_lower :: "pystr \<Rightarrow> bool" where
  "check_lower password = fst (case_loop password (False, False))"

definition check_upper :: "pystr \<Rightarrow> bool" where
  "check_upper password = snd (case_loop password (False, False))"

definition reason_case :: pystr where
  "reason_case = lit ''Password cannot be all-lowercase or all-uppercase.''"

definition case_checker :: "pystr \<Rightarrow> checker \<Rightarrow> checker" where
  "case_checker password st =
     (if (check_lower password \<or> check_upper password)
         \<and> \<not> (check_lower password \<and> check_upper password)
      then fail_with reason_case st else st)"

text \<open>Swapcase of username checker.\<close>

definition reason_swapcase :: pystr where
  "reason_swapcase = lit ''Password is swapcase version of username.''"

definition swapcase_checker :: "pylib \<Rightarrow> pystr \<Rightarrow> pystr \<Rightarrow> checker \<Rightarrow> checker" where
  "swapcase_checker L username password st =
     (if password \<noteq> username \<and> password = str_swapcase L username
      then fail_with reason_swapcase st else st)"

text \<open>Symbol replacement.\<close>

definition t_i :: "(codepoint \<times> codepoint) list" where
  "t_i = [(ch CHR ''@'', ch CHR ''a''), (ch CHR ''$'', ch CHR ''s''),
          (ch CHR ''!'', ch CHR ''i''), (ch CHR ''0'', ch CHR ''o'')]"

definition t_l :: "(codepoint \<times> codepoint) list" where
  "t_l = [(ch CHR ''@'', ch CHR ''a''), (ch CHR ''$'', ch CHR ''s''),
          (ch CHR ''!'', ch CHR ''l''), (ch CHR ''0'', ch CHR ''o'')]"

definition u_low :: "pylib \<Rightarrow> pystr \<Rightarrow> pystr" where
  "u_low L username = str_lower L username"

definition p_low :: "pylib \<Rightarrow> pystr \<Rightarrow> pystr" where
  "p_low L password = str_lower L password"

definition p_norm_i :: "pylib \<Rightarrow> pystr \<Rightarrow> pystr" where
  "p_norm_i L password = translate t_i (p_low L password)"

definition p_norm_l :: "pylib \<Rightarrow> pystr \<Rightarrow> pystr" where
  "p_norm_l L password = translate t_l (p_low L password)"

definition used_symbols :: "pystr \<Rightarrow> bool" where
  "used_symbols password = list_ex (\<lambda>c. List.member (lit ''@$!0'') c) password"

definition reason_symbols :: pystr where
  "reason_symbols =
     lit ''Password contains symbols replacing letters (e.g. '@' for 'a').''"

definition symbol_checker :: "pylib \<Rightarrow> pystr \<Rightarrow> pystr \<Rightarrow> checker \<Rightarrow> checker" where
  "symbol_checker L username password st =
     (if used_symbols password
         \<and> (p_norm_i L password = u_low L username \<or> p_norm_l L password = u_low L username)
      then fail_with reason_symbols st else st)"

text \<open>Common or password-like.\<close>

definition common_pw :: "pystr set" where
  "common_pw =
     {lit ''123456'', lit ''12345678'', lit ''123456789'', lit ''12345'', lit ''111111'',
      lit ''qwerty'', lit ''asdfgh'', lit ''zxcvbnm'', lit ''password'', lit ''admin''}"

definition t_pw :: "(codepoint \<times> codepoint) list" where
  "t_pw = [(ch CHR ''@'', ch CHR ''a''), (ch CHR ''$'', ch CHR ''s''),
           (ch CHR ''0'', ch CHR ''o'')]"

definition pw_low :: "pylib \<Rightarrow> pystr \<Rightarrow> pystr" where
  "pw_low L password = str_lower L password"

definition pw_norm :: "pylib \<Rightarrow> pystr \<Rightarrow> pystr" where
  "pw_norm L password = translate t_pw (pw_low L password)"

definition pw_norm_alnum :: "pylib \<Rightarrow> pystr \<Rightarrow> pystr" where
  "pw_norm_alnum L password = filter (str_isalnum L) (pw_norm L password)"

definition reason_common :: pystr where
  "reason_common = lit ''Password is too common or similar to 'password'.''"

definition common_checker :: "pylib \<Rightarrow> pystr \<Rightarrow> checker \<Rightarrow> checker" where
  "common_checker L password st =
     (if pw_low L password \<in> common_pw then fail_with reason_common st
      else if pw_norm_alnum L password = lit ''password'' then fail_with reason_common st
      else st)"

subsection \<open>The whole script\<close>

text \<open>The state after the seven checks, for the stripped username and password.\<close>

definition evaluate :: "pylib \<Rightarrow> pystr \<Rightarrow> pystr \<Rightarrow> checker" where
  "evaluate L username password =
     common_checker L password
      (symbol_checker L username password
        (swapcase_checker L username password
          (case_checker password
            (username_checker username password
              (combine_checker password
                (length_checker password init))))))"

text \<open>
  The seven checks as a list, the states the script goes through (before the first check
  and after each one), and the number of checks that took their failing branch: a check
  fails on a state exactly when it changes it.
\<close>

definition checks :: "pylib \<Rightarrow> pystr \<Rightarrow> pystr \<Rightarrow> (checker \<Rightarrow> checker) list" where
  "checks L username password =
     [length_checker password, combine_checker password,
      username_checker username password, case_checker password,
      swapcase_checker L username password, symbol_checker L username password,
      common_checker L password]"

fun run_trace :: "(checker \<Rightarrow> checker) list \<Rightarrow> checker \<Rightarrow> checker list" where
  "run_trace [] st = [st]"
| "run_trace (check # rest) st = st # run_trace rest (check st)"

fun count_failed :: "(checker \<Rightarrow> checker) list \<Rightarrow> checker \<Rightarrow> nat" where
  "count_failed [] st = 0"
| "count_failed (check # rest) st =
     (if check st \<noteq> st then 1 else 0) + count_failed rest (check st)"

definition trace :: "pylib \<Rightarrow> pystr \<Rightarrow> pystr \<Rightarrow> checker list" where
  "trace L username password = run_trace (checks L username password) init"

definition failed_checks :: "pylib \<Rightarrow> pystr \<Rightarrow> pystr \<Rightarrow> nat" where
  "failed_checks L username password = count_failed (checks L username password) init"

definition level :: "int \<Rightarrow> pystr" where
  "level s = (if s \<ge> 5 then lit ''Strong'' else if s \<ge> 3 then lit ''Medium'' else lit ''Weak'')"

text \<open>
  What the script prints: the score, the level and the failed checks in order. Its two
  arguments are the lines that the two \<open>input\<close> calls return.
\<close>

record printed =
  out_score :: int
  out_level :: pystr
  out_failed :: "pystr list"

definition program :: "pylib \<Rightarrow> pystr \<Rightarrow> pystr \<Rightarrow> printed" where
  "program L raw_username raw_password =
     (let username = strip L raw_username;
          password = strip L raw_password;
          st = evaluate L username password
      in \<lparr>out_score = score st, out_level = level (score st),
          out_failed = failed_parameters st\<rparr>)"

subsection \<open>Predicates used in the proofs\<close>

text \<open>
  A check is well-behaved when, on every state, it either leaves the state alone or does
  exactly \<open>fail_with\<close> for some reason. The running invariant ties the score to the
  number of recorded reasons.
\<close>

definition step_ok :: "(checker \<Rightarrow> checker) \<Rightarrow> bool" where
  "step_ok check = (\<forall>st. check st = st \<or> (\<exists>reason. check st = fail_with reason st))"

definition running_inv :: "checker \<Rightarrow> bool" where
  "running_inv st = (score st = top_score - int (length (failed_parameters st)))"

subsection \<open>The substitutions as the specification words them\<close>

text \<open>
  The specification describes the normalisations of checks 6 and 7 character by
  character: \<open>@\<close> becomes \<open>a\<close>, \<open>$\<close> becomes \<open>s\<close>, \<open>0\<close> becomes \<open>o\<close>, and in check 6
  \<open>!\<close> becomes \<open>i\<close> in one candidate and \<open>l\<close> in the other. These two definitions follow
  those words; the theorems compare them with the translation tables of the script.
\<close>

definition spec_norm_symbols :: "codepoint \<Rightarrow> pystr \<Rightarrow> pystr" where
  "spec_norm_symbols bang s =
     map (\<lambda>c. if c = ch CHR ''@'' then ch CHR ''a''
              else if c = ch CHR ''$'' then ch CHR ''s''
              else if c = ch CHR ''0'' then ch CHR ''o''
              else if c = ch CHR ''!'' then bang
              else c) s"

definition spec_norm_common :: "pystr \<Rightarrow> pystr" where
  "spec_norm_common s =
     map (\<lambda>c. if c = ch CHR ''@'' then ch CHR ''a''
              else if c = ch CHR ''$'' then ch CHR ''s''
              else if c = ch CHR ''0'' then ch CHR ''o''
              else c) s"

section \<open>Properties\<close>

subsection \<open>One failing branch\<close>

lemma fail_with_neq: "fail_with reason st \<noteq> st"
proof
  assume "fail_with reason st = st"
  then have "score (fail_with reason st) = score st" by simp
  then show False by (simp add: fail_with_def)
qed

lemma score_fail_with: "score (fail_with reason st) = score st - 1"
  by (simp add: fail_with_def)

lemma failed_fail_with:
  "failed_parameters (fail_with reason st) = failed_parameters st @ [reason]"
  by (simp add: fail_with_def)

lemma step_ok_if: "step_ok (\<lambda>st. if c then fail_with reason st else st)"
  unfolding step_ok_def by (cases c) auto

lemma step_ok_length: "step_ok (length_checker password)"
  using step_ok_if [of "length password \<le> 8" reason_length]
  by (simp add: length_checker_def [abs_def])

lemma step_ok_combine: "step_ok (combine_checker password)"
  using step_ok_if [of "\<not> (check_letter password \<and> check_special password)" reason_combine]
  by (simp add: combine_checker_def [abs_def])

lemma step_ok_username: "step_ok (username_checker username password)"
  using step_ok_if [of "password = username" reason_username]
  by (simp add: username_checker_def [abs_def])

lemma step_ok_case: "step_ok (case_checker password)"
  using step_ok_if [of "(check_lower password \<or> check_upper password)
         \<and> \<not> (check_lower password \<and> check_upper password)" reason_case]
  by (simp add: case_checker_def [abs_def])

lemma step_ok_swapcase: "step_ok (swapcase_checker L username password)"
  using step_ok_if
    [of "password \<noteq> username \<and> password = str_swapcase L username" reason_swapcase]
  by (simp add: swapcase_checker_def [abs_def])

lemma step_ok_symbol: "step_ok (symbol_checker L username password)"
  using step_ok_if [of "used_symbols password
         \<and> (p_norm_i L password = u_low L username \<or> p_norm_l L password = u_low L username)"
      reason_symbols]
  by (simp add: symbol_checker_def [abs_def])

lemma common_checker_flat:
  "common_checker L password st =
     (if pw_low L password \<in> common_pw \<or> pw_norm_alnum L password = lit ''password''
      then fail_with reason_common st else st)"
  by (simp add: common_checker_def)

lemma step_ok_common: "step_ok (common_checker L password)"
  using step_ok_if
    [of "pw_low L password \<in> common_pw \<or> pw_norm_alnum L password = lit ''password''"
      reason_common]
  by (simp add: common_checker_flat [abs_def])

lemma checks_step_ok: "check \<in> set (checks L username password) \<Longrightarrow> step_ok check"
  unfolding checks_def
  using step_ok_length step_ok_combine step_ok_username step_ok_case step_ok_swapcase
    step_ok_symbol step_ok_common
  by auto

lemma length_checks: "length (checks L username password) = 7"
  by (simp add: checks_def)

lemma evaluate_fold:
  "evaluate L username password = fold (\<lambda>f. f) (checks L username password) init"
  by (simp add: evaluate_def checks_def)

subsection \<open>A run of well-behaved checks\<close>

lemma running_inv_init: "running_inv init"
  by (simp add: running_inv_def init_def)

lemma running_inv_step:
  assumes "step_ok check" and "running_inv st"
  shows "running_inv (check st)"
proof -
  from assms(1) consider "check st = st" | reason where "check st = fail_with reason st"
    unfolding step_ok_def by blast
  then show ?thesis
  proof cases
    case 1
    with assms(2) show ?thesis by simp
  next
    case 2
    with assms(2) show ?thesis
      by (simp add: running_inv_def score_fail_with failed_fail_with)
  qed
qed

lemma step_ok_score:
  assumes "step_ok f"
  shows "score (f st) = score st - (if f st \<noteq> st then 1 else 0)"
proof -
  from assms consider "f st = st" | reason where "f st = fail_with reason st"
    unfolding step_ok_def by blast
  then show ?thesis
  proof cases
    case 1
    then show ?thesis by simp
  next
    case 2
    have "fail_with reason st \<noteq> st" by (rule fail_with_neq)
    with 2 show ?thesis by (simp add: score_fail_with)
  qed
qed

lemma run_trace_length: "length (run_trace fs st) = Suc (length fs)"
  by (induction fs arbitrary: st) auto

lemma run_trace_0: "run_trace fs st ! 0 = st"
  by (cases fs) auto

lemma run_trace_step:
  "k < length fs \<Longrightarrow> run_trace fs st ! Suc k = (fs ! k) (run_trace fs st ! k)"
proof (induction fs arbitrary: st k)
  case Nil
  then show ?case by simp
next
  case (Cons f fs)
  show ?case
  proof (cases k)
    case 0
    then show ?thesis by (simp add: run_trace_0)
  next
    case (Suc j)
    with Cons show ?thesis by simp
  qed
qed

lemma run_trace_last: "run_trace fs st ! length fs = fold (\<lambda>f. f) fs st"
  by (induction fs arbitrary: st) auto

lemma run_trace_inv:
  "(\<And>f. f \<in> set fs \<Longrightarrow> step_ok f) \<Longrightarrow> running_inv st \<Longrightarrow> s \<in> set (run_trace fs st)
   \<Longrightarrow> running_inv s"
proof (induction fs arbitrary: st)
  case Nil
  then show ?case by simp
next
  case (Cons f fs)
  from Cons.prems have "running_inv (f st)" by (simp add: running_inv_step)
  with Cons show ?case by auto
qed

lemma count_failed_score:
  "(\<And>f. f \<in> set fs \<Longrightarrow> step_ok f) \<Longrightarrow>
   score (fold (\<lambda>f. f) fs st) = score st - int (count_failed fs st)"
proof (induction fs arbitrary: st)
  case Nil
  then show ?case by simp
next
  case (Cons f fs)
  have ok: "step_ok f" using Cons.prems by simp
  have rest: "\<And>g. g \<in> set fs \<Longrightarrow> step_ok g" using Cons.prems by simp
  have ih: "score (fold (\<lambda>f. f) fs (f st)) = score (f st) - int (count_failed fs (f st))"
    by (rule Cons.IH) (rule rest)
  have "fold (\<lambda>f. f) (f # fs) st = fold (\<lambda>f. f) fs (f st)" by simp
  moreover have "int (count_failed (f # fs) st) =
      (if f st \<noteq> st then 1 else 0) + int (count_failed fs (f st))" by simp
  ultimately show ?case using ih step_ok_score [OF ok, of st] by (simp only:)
qed

lemma count_failed_le: "count_failed fs st \<le> length fs"
proof (induction fs arbitrary: st)
  case Nil
  then show ?case by simp
next
  case (Cons f fs)
  have "count_failed fs (f st) \<le> length fs" by (rule Cons.IH)
  moreover have "count_failed (f # fs) st \<le> 1 + count_failed fs (f st)" by simp
  moreover have "length (f # fs) = 1 + length fs" by simp
  ultimately show ?case by arith
qed

lemma trace_nth_inv:
  assumes "k \<le> 7"
  shows "running_inv (trace L username password ! k)"
proof -
  have mem: "trace L username password ! k \<in> set (run_trace (checks L username password) init)"
    using assms by (simp add: trace_def run_trace_length length_checks)
  show ?thesis by (rule run_trace_inv [OF checks_step_ok running_inv_init mem])
qed

subsection \<open>The failure list only grows\<close>

lemma step_ok_prefix:
  assumes "step_ok f"
  shows "\<exists>xs. failed_parameters (f st) = failed_parameters st @ xs"
proof -
  from assms consider "f st = st" | reason where "f st = fail_with reason st"
    unfolding step_ok_def by blast
  then show ?thesis
  proof cases
    case 1
    then show ?thesis by simp
  next
    case 2
    then show ?thesis by (simp add: failed_fail_with)
  qed
qed

lemma fold_prefix:
  "(\<And>f. f \<in> set fs \<Longrightarrow> step_ok f) \<Longrightarrow>
   \<exists>xs. failed_parameters (fold (\<lambda>f. f) fs st) = failed_parameters st @ xs"
proof (induction fs arbitrary: st)
  case Nil
  then show ?case by simp
next
  case (Cons f fs)
  have "step_ok f" using Cons.prems by simp
  then obtain xs where xs: "failed_parameters (f st) = failed_parameters st @ xs"
    using step_ok_prefix by blast
  have rest: "\<And>g. g \<in> set fs \<Longrightarrow> step_ok g" using Cons.prems by simp
  obtain ys where "failed_parameters (fold (\<lambda>f. f) fs (f st)) = failed_parameters (f st) @ ys"
    using Cons.IH [OF rest] by blast
  with xs show ?case by simp
qed

lemma evaluate_short_password:
  assumes "length password \<le> 8"
  shows "\<exists>rest. failed_parameters (evaluate L username password) = reason_length # rest"
proof -
  have "evaluate L username password =
      fold (\<lambda>f. f) (tl (checks L username password)) (length_checker password init)"
    by (simp add: evaluate_def checks_def)
  moreover have "\<And>f. f \<in> set (tl (checks L username password)) \<Longrightarrow> step_ok f"
    using checks_step_ok [of _ L username password] by (simp add: checks_def)
  ultimately obtain xs where
    "failed_parameters (evaluate L username password) =
       failed_parameters (length_checker password init) @ xs"
    using fold_prefix by metis
  with assms show ?thesis
    by (simp add: length_checker_def failed_fail_with init_def)
qed

subsection \<open>The scanning loops\<close>

lemma check_special_iff: "check_special password \<longleftrightarrow> (\<exists>c\<in>set password. c \<in> set specials)"
  by (induction password) auto

lemma check_letter_iff:
  "check_letter password \<longleftrightarrow> (\<exists>c\<in>set password. between_a_z c \<or> between_A_Z c)"
  by (induction password) auto

lemma set_specials: "set specials = {ch CHR ''!'', ch CHR ''@'', ch CHR ''$'', ch CHR ''?''}"
  by (simp add: specials_def)

lemma not_both_cases: "between_a_z c \<Longrightarrow> \<not> between_A_Z c"
  by (simp add: between_a_z_def between_A_Z_def)

lemma case_loop_flags:
  "case_loop password (lo, up) =
     (lo \<or> (\<exists>c\<in>set password. between_a_z c), up \<or> (\<exists>c\<in>set password. between_A_Z c))"
proof (induction password arbitrary: lo up)
  case Nil
  then show ?case by simp
next
  case (Cons c cs)
  then show ?case using not_both_cases [of c] by auto
qed

lemma check_lower_iff: "check_lower password \<longleftrightarrow> (\<exists>c\<in>set password. between_a_z c)"
  by (simp add: check_lower_def case_loop_flags)

lemma check_upper_iff: "check_upper password \<longleftrightarrow> (\<exists>c\<in>set password. between_A_Z c)"
  by (simp add: check_upper_def case_loop_flags)

subsection \<open>Stripping\<close>

lemma strip_idem: "strip L (strip L s) = strip L s"
proof -
  let ?P = "str_isspace L"
  let ?t = "dropWhile ?P (rev (dropWhile ?P s))"
  have front: "dropWhile ?P (rev ?t) = rev ?t"
  proof (cases "rev ?t")
    case Nil
    show ?thesis by (simp only: Nil dropWhile.simps)
  next
    case (Cons c cs)
    have "rev ?t \<noteq> []" using Cons by simp
    then have t_ne: "?t \<noteq> []" by simp
    have d_ne: "dropWhile ?P s \<noteq> []"
    proof
      assume "dropWhile ?P s = []"
      then have e: "?t = []" by (simp only: rev.simps dropWhile.simps)
      from t_ne e show False by (rule notE)
    qed
    have suffix: "\<exists>ys. rev (dropWhile ?P s) = ys @ ?t"
      by (metis takeWhile_dropWhile_id)
    then obtain ys where ys: "rev (dropWhile ?P s) = ys @ ?t" by blast
    have "hd (rev ?t) = last ?t" using t_ne by (simp add: hd_rev)
    also have "\<dots> = last (rev (dropWhile ?P s))" using ys t_ne by (metis last_appendR)
    also have "\<dots> = hd (dropWhile ?P s)" using d_ne by (simp add: last_rev)
    finally have "hd (rev ?t) = hd (dropWhile ?P s)" .
    moreover have "\<not> ?P (hd (dropWhile ?P s))" using d_ne by (rule hd_dropWhile)
    ultimately have "\<not> ?P c" using Cons by simp
    with Cons show ?thesis by simp
  qed
  have rear: "dropWhile ?P (rev (rev ?t)) = ?t" by (simp add: dropWhile_idem)
  show ?thesis unfolding strip_def by (simp only: front rear)
qed

lemma length_strip_le: "length (strip L s) \<le> length s"
proof -
  have "length (strip L s) \<le> length (dropWhile (str_isspace L) s)"
    unfolding strip_def
    using length_dropWhile_le [of "str_isspace L" "rev (dropWhile (str_isspace L) s)"]
    by simp
  also have "\<dots> \<le> length s" by (rule length_dropWhile_le)
  finally show ?thesis .
qed

lemma length_strip_less:
  assumes "s \<noteq> []" and "str_isspace L (last s)"
  shows "length (strip L s) < length s"
proof -
  let ?P = "str_isspace L"
  let ?d = "dropWhile ?P s"
  show ?thesis
  proof (cases "?d = []")
    case True
    have "strip L s = []" by (simp only: strip_def True rev.simps dropWhile.simps)
    with assms(1) show ?thesis by simp
  next
    case False
    obtain ys where "s = ys @ ?d" by (metis takeWhile_dropWhile_id)
    then have "last ?d = last s" using False by (metis last_appendR)
    then have "?P (hd (rev ?d))" using False assms(2) by (simp add: hd_rev)
    moreover have "rev ?d \<noteq> []" using False by simp
    ultimately have "dropWhile ?P (rev ?d) = dropWhile ?P (tl (rev ?d))"
      by (cases "rev ?d") auto
    then have "length (strip L s) \<le> length (tl (rev ?d))"
      unfolding strip_def using length_dropWhile_le [of ?P "tl (rev ?d)"] by simp
    also have "\<dots> < length ?d" using False by simp
    also have "\<dots> \<le> length s" by (rule length_dropWhile_le)
    finally show ?thesis .
  qed
qed

subsection \<open>Translation tables and small facts\<close>

lemma translate_t_i: "translate t_i s = spec_norm_symbols (ch CHR ''i'') s"
  by (simp add: translate_def t_i_def spec_norm_symbols_def)

lemma translate_t_l: "translate t_l s = spec_norm_symbols (ch CHR ''l'') s"
  by (simp add: translate_def t_l_def spec_norm_symbols_def)

lemma translate_t_pw: "translate t_pw s = spec_norm_common s"
  by (simp add: translate_def t_pw_def spec_norm_common_def)

lemma used_symbols_iff:
  "used_symbols password \<longleftrightarrow>
     (\<exists>c\<in>set password. c \<in> {ch CHR ''@'', ch CHR ''$'', ch CHR ''!'', ch CHR ''0''})"
  by (simp add: used_symbols_def list_ex_iff)

lemma strip_Nil: "strip L [] = []"
  by (simp add: strip_def)

lemma program_failed:
  "out_failed (program L raw_username raw_password)
     = failed_parameters (evaluate L (strip L raw_username) (strip L raw_password))"
  by (simp add: program_def Let_def)

lemma digit_not_letter: "between_0_9 c \<Longrightarrow> \<not> (between_a_z c \<or> between_A_Z c)"
  by (simp add: between_0_9_def between_a_z_def between_A_Z_def)

lemma special_not_letter:
  "c \<in> {ch CHR ''!'', ch CHR ''@'', ch CHR ''$'', ch CHR ''?''}
   \<Longrightarrow> \<not> (between_a_z c \<or> between_A_Z c)"
  by (auto simp: between_a_z_def between_A_Z_def)

lemma ascii_swapcase_map:
  "str_swapcase ascii_lib username =
     map (\<lambda>c. if between_a_z c then c - 32 else if between_A_Z c then c + 32 else c) username"
proof -
  have "ascii_swapcase c = (if between_a_z c then c - 32 else if between_A_Z c then c + 32 else c)"
    for c
    using not_both_cases [of c] by (auto simp: ascii_swapcase_def)
  then show ?thesis by (simp add: ascii_lib_def)
qed

lemma branch_taken:
  "((if c then fail_with reason st else st) = fail_with reason st) = c"
  "((if c then fail_with reason st else st) = st) = (\<not> c)"
proof -
  have neq: "fail_with reason st \<noteq> st" by (rule fail_with_neq)
  show "((if c then fail_with reason st else st) = fail_with reason st) = c"
  proof (cases c)
    case True
    then show ?thesis by simp
  next
    case False
    with neq show ?thesis by (metis (full_types))
  qed
  show "((if c then fail_with reason st else st) = st) = (\<not> c)"
  proof (cases c)
    case True
    with neq show ?thesis by (metis (full_types))
  next
    case False
    then show ?thesis by simp
  qed
qed

lemma disj_excl: "(A \<or> B) = (A \<or> (\<not> A \<and> B))"
  by blast

lemma common_pw_set:
  "common_pw =
     {lit ''123456'', lit ''12345678'', lit ''123456789'', lit ''12345'', lit ''111111'',
      lit ''qwerty'', lit ''asdfgh'', lit ''zxcvbnm'', lit ''password'', lit ''admin''}"
  by (rule common_pw_def)

lemma strip_one_trailing:
  assumes "s \<noteq> []" and "str_isspace L (last s)" and "butlast s \<noteq> []"
    and "\<not> str_isspace L (hd s)" and "\<not> str_isspace L (last (butlast s))"
  shows "strip L s = butlast s"
proof -
  let ?P = "str_isspace L"
  have d: "dropWhile ?P s = s" using assms(4) by (simp add: dropWhile_eq_self_iff)
  have "s = butlast s @ [last s]" using assms(1) by simp
  then have "rev s = rev (butlast s @ [last s])" by (rule arg_cong)
  then have rs: "rev s = last s # rev (butlast s)" by (simp only: rev_append rev.simps append.simps)
  have r: "dropWhile ?P (rev s) = dropWhile ?P (rev (butlast s))"
    unfolding rs using assms(2) by (simp only: dropWhile.simps if_True)
  have "hd (rev (butlast s)) = last (butlast s)" by (rule hd_rev)
  then have "dropWhile ?P (rev (butlast s)) = rev (butlast s)"
    using assms(5) by (simp add: dropWhile_eq_self_iff)
  with r d show ?thesis by (simp add: strip_def)
qed

lemma program_strip:
  "program L raw_username raw_password
     = program L (strip L raw_username) (strip L raw_password)"
  by (simp add: program_def strip_idem)

lemma trace_last: "trace L username password ! 7 = evaluate L username password"
  using run_trace_last [of "checks L username password" init]
  by (simp add: trace_def length_checks evaluate_fold)

lemma evaluate_score:
  "score (evaluate L username password) = 7 - int (failed_checks L username password)
   \<and> 0 \<le> score (evaluate L username password)
   \<and> score (evaluate L username password) \<le> 7
   \<and> int (length (failed_parameters (evaluate L username password)))
       = 7 - score (evaluate L username password)"
proof -
  let ?fs = "checks L username password"
  let ?st = "evaluate L username password"
  have ok: "\<And>f. f \<in> set ?fs \<Longrightarrow> step_ok f" by (rule checks_step_ok)
  have count: "score ?st = 7 - int (failed_checks L username password)"
    using count_failed_score [OF ok, of ?fs init]
    by (simp add: evaluate_fold failed_checks_def init_def top_score_def)
  have "failed_checks L username password \<le> 7"
    using count_failed_le [of ?fs init] by (simp add: failed_checks_def length_checks)
  with count have range: "0 \<le> score ?st \<and> score ?st \<le> 7" by simp
  have "running_inv (trace L username password ! 7)" by (rule trace_nth_inv) simp
  then have len: "int (length (failed_parameters ?st)) = 7 - score ?st"
    by (simp add: trace_last running_inv_def top_score_def)
  from count range len show ?thesis by blast
qed

subsection \<open>Score, failed checks and failure list\<close>

text \<open>
  Claim C1. For every username and password the final score lies between 0 and 7, equals
  7 minus the number of failed checks, and the list of failure reasons has exactly
  7 minus score entries. The script goes through eight states (the initial one, with
  score 7 and no reason, and one after each check); in every one of them the score is
  7 minus the number of reasons recorded so far, and every check either leaves the state
  as it is or lowers the score by exactly 1 and appends exactly one reason. The score
  and the failure list that the script prints for two raw inputs satisfy the same bounds
  and equations.
\<close>

theorem score_invariant:
  "(let st = evaluate L username password; tr = trace L username password in
      0 \<le> score st \<and> score st \<le> 7
    \<and> score st = 7 - int (failed_checks L username password)
    \<and> int (length (failed_parameters st)) = 7 - score st
    \<and> length tr = 8 \<and> tr ! 0 = init \<and> score init = 7 \<and> tr ! 7 = st
    \<and> (\<forall>k\<le>7. score (tr ! k) = 7 - int (length (failed_parameters (tr ! k))))
    \<and> (\<forall>k<7. tr ! Suc k = tr ! k
          \<or> (score (tr ! Suc k) = score (tr ! k) - 1
             \<and> (\<exists>reason. failed_parameters (tr ! Suc k)
                            = failed_parameters (tr ! k) @ [reason]))))
   \<and> (let out = program L raw_username raw_password in
        0 \<le> out_score out \<and> out_score out \<le> 7
      \<and> out_score out
          = 7 - int (failed_checks L (strip L raw_username) (strip L raw_password))
      \<and> int (length (out_failed out)) = 7 - out_score out)"
proof -
  let ?fs = "checks L username password"
  let ?st = "evaluate L username password"
  let ?tr = "trace L username password"
  have ok: "\<And>f. f \<in> set ?fs \<Longrightarrow> step_ok f" by (rule checks_step_ok)
  have last: "?tr ! 7 = ?st" by (rule trace_last)
  note ev = evaluate_score [of L username password]
  from ev have count: "score ?st = 7 - int (failed_checks L username password)" by blast
  from ev have range: "0 \<le> score ?st \<and> score ?st \<le> 7" by blast
  from ev have len: "int (length (failed_parameters ?st)) = 7 - score ?st" by blast
  have shape: "length ?tr = 8 \<and> ?tr ! 0 = init \<and> score init = 7"
    by (simp add: trace_def run_trace_length length_checks run_trace_0 init_def top_score_def)
  have running: "\<forall>k\<le>7. score (?tr ! k) = 7 - int (length (failed_parameters (?tr ! k)))"
    using trace_nth_inv [of _ L username password] by (simp add: running_inv_def top_score_def)
  have steps: "\<forall>k<7. ?tr ! Suc k = ?tr ! k
          \<or> (score (?tr ! Suc k) = score (?tr ! k) - 1
             \<and> (\<exists>reason. failed_parameters (?tr ! Suc k)
                            = failed_parameters (?tr ! k) @ [reason]))"
  proof (intro allI impI)
    fix k :: nat
    assume k: "k < 7"
    then have "?fs ! k \<in> set ?fs" by (simp add: length_checks)
    then have "step_ok (?fs ! k)" by (rule ok)
    moreover have "?tr ! Suc k = (?fs ! k) (?tr ! k)"
      unfolding trace_def using k by (simp add: run_trace_step length_checks)
    ultimately consider "?tr ! Suc k = ?tr ! k"
      | reason where "?tr ! Suc k = fail_with reason (?tr ! k)"
      unfolding step_ok_def by metis
    then show "?tr ! Suc k = ?tr ! k
          \<or> (score (?tr ! Suc k) = score (?tr ! k) - 1
             \<and> (\<exists>reason. failed_parameters (?tr ! Suc k)
                            = failed_parameters (?tr ! k) @ [reason]))"
    proof cases
      case 1
      then show ?thesis by simp
    next
      case 2
      then show ?thesis by (simp add: score_fail_with failed_fail_with)
    qed
  qed
  have prog: "0 \<le> out_score (program L raw_username raw_password)
      \<and> out_score (program L raw_username raw_password) \<le> 7
      \<and> out_score (program L raw_username raw_password)
          = 7 - int (failed_checks L (strip L raw_username) (strip L raw_password))
      \<and> int (length (out_failed (program L raw_username raw_password)))
          = 7 - out_score (program L raw_username raw_password)"
    using evaluate_score [of L "strip L raw_username" "strip L raw_password"]
    by (simp add: program_def Let_def)
  from range count len shape last running steps prog show ?thesis
    unfolding Let_def by blast
qed

text \<open>
  The theorem at username \<open>Tom\<close> and password \<open>tOM\<close>: three checks fail (length,
  letter and special, swapcase), so the score is 4 and three reasons are recorded; state
  5 satisfies the running invariant and check 5 (swapcase) lowers the score by 1.
\<close>

theorem score_invariant_witness:
  "failed_checks ascii_lib (lit ''Tom'') (lit ''tOM'') = 3
   \<and> score (evaluate ascii_lib (lit ''Tom'') (lit ''tOM'')) = 4
   \<and> length (failed_parameters (evaluate ascii_lib (lit ''Tom'') (lit ''tOM''))) = 3
   \<and> (5::nat) \<le> 7
   \<and> score (trace ascii_lib (lit ''Tom'') (lit ''tOM'') ! 5)
       = 7 - int (length (failed_parameters (trace ascii_lib (lit ''Tom'') (lit ''tOM'') ! 5)))
   \<and> (4::nat) < 7
   \<and> score (trace ascii_lib (lit ''Tom'') (lit ''tOM'') ! Suc 4)
       = score (trace ascii_lib (lit ''Tom'') (lit ''tOM'') ! 4) - 1"
proof -
  let ?u = "lit ''Tom''" and ?p = "lit ''tOM''"
  note inst = score_invariant [of ascii_lib ?u ?p ?u ?p, unfolded Let_def]
  have n: "failed_checks ascii_lib ?u ?p = 3" by code_simp
  have changed: "trace ascii_lib ?u ?p ! Suc 4 \<noteq> trace ascii_lib ?u ?p ! 4" by code_simp
  from inst n have s: "score (evaluate ascii_lib ?u ?p) = 4" by simp
  from inst s have l: "length (failed_parameters (evaluate ascii_lib ?u ?p)) = 3" by simp
  from inst have r: "\<forall>k\<le>7. score (trace ascii_lib ?u ?p ! k)
       = 7 - int (length (failed_parameters (trace ascii_lib ?u ?p ! k)))" by blast
  from inst have t: "\<forall>k<7. trace ascii_lib ?u ?p ! Suc k = trace ascii_lib ?u ?p ! k
          \<or> (score (trace ascii_lib ?u ?p ! Suc k) = score (trace ascii_lib ?u ?p ! k) - 1
             \<and> (\<exists>reason. failed_parameters (trace ascii_lib ?u ?p ! Suc k)
                            = failed_parameters (trace ascii_lib ?u ?p ! k) @ [reason]))" by blast
  from r have r5: "score (trace ascii_lib ?u ?p ! 5)
       = 7 - int (length (failed_parameters (trace ascii_lib ?u ?p ! 5)))" by simp
  from t [rule_format, of 4] changed have t4: "score (trace ascii_lib ?u ?p ! Suc 4)
       = score (trace ascii_lib ?u ?p ! 4) - 1" by auto
  from n s l r5 t4 show ?thesis by simp
qed

subsection \<open>Level\<close>

text \<open>
  Claim C2. The level that is printed is a function of the final score alone: a score of
  5 or more gives Strong, a score of 3 or 4 gives Medium, a score below 3 gives Weak. In
  particular the score 3 gives Medium and not Weak.
\<close>

theorem level_thresholds:
  "out_level (program L raw_username raw_password)
     = level (out_score (program L raw_username raw_password))
   \<and> (5 \<le> s \<longrightarrow> level s = lit ''Strong'')
   \<and> (3 \<le> s \<and> s < 5 \<longrightarrow> level s = lit ''Medium'')
   \<and> (s < 3 \<longrightarrow> level s = lit ''Weak'')
   \<and> level 3 = lit ''Medium'' \<and> level 3 \<noteq> lit ''Weak''"
  by (simp add: level_def program_def Let_def)

text \<open>
  The theorem at the scores 7, 4 and 2, and at username \<open>Admin\<close> with password
  \<open>admin\<close>, whose score is 3.
\<close>

theorem level_thresholds_witness:
  "(5::int) \<le> 7 \<and> level 7 = lit ''Strong''
   \<and> (3::int) \<le> 4 \<and> (4::int) < 5 \<and> level 4 = lit ''Medium''
   \<and> (2::int) < 3 \<and> level 2 = lit ''Weak''
   \<and> out_level (program ascii_lib (lit ''Admin'') (lit ''admin'')) = lit ''Medium''"
proof -
  have sc: "out_score (program ascii_lib (lit ''Admin'') (lit ''admin'')) = 3" by code_simp
  from level_thresholds [of ascii_lib "lit ''Admin''" "lit ''admin''" 7]
    level_thresholds [of ascii_lib "lit ''Admin''" "lit ''admin''" 4]
    level_thresholds [of ascii_lib "lit ''Admin''" "lit ''admin''" 2] sc
  show ?thesis by simp
qed

subsection \<open>Scenario A: alice\<close>

text \<open>
  Claim C3 says that username \<open>alice\<close> with password \<open>alice123\<close> fails exactly two checks
  (length, letter and special), for a score of 5, level Medium and two reasons. The
  script does not do that: the score is not 5, the number of reasons is not 2 and the
  number of failed checks is not 2.
\<close>

theorem alice_counterexample:
  "out_score (program ascii_lib (lit ''alice'') (lit ''alice123'')) \<noteq> 5
   \<and> length (out_failed (program ascii_lib (lit ''alice'') (lit ''alice123''))) \<noteq> 2
   \<and> failed_checks ascii_lib (lit ''alice'') (lit ''alice123'') \<noteq> 2"
  by code_simp

text \<open>
  Claim C3, amended. Username \<open>alice\<close> with password \<open>alice123\<close> fails exactly three checks:
  length (8 characters), letter and special (no special character) and case mixing (all
  its letters are lowercase). The score is 4, the level is Medium and three reasons are
  recorded, in that order.
\<close>

theorem alice_scenario:
  "program ascii_lib (lit ''alice'') (lit ''alice123'')
     = \<lparr>out_score = 4, out_level = lit ''Medium'',
        out_failed = [reason_length, reason_combine, reason_case]\<rparr>
   \<and> failed_checks ascii_lib (lit ''alice'') (lit ''alice123'') = 3"
  by code_simp

subsection \<open>Check 1: length\<close>

text \<open>
  Claim C4. The length check fails if and only if the password has at most 8 characters:
  exactly 8 characters fail it, 9 or more pass it. The empty password fails it and the
  script goes on to its end: the first recorded reason of any run on a password of at
  most 8 characters, the empty one included, is the length reason. No operation of the
  script raises on the empty string, so the model has no error branch.
\<close>

theorem length_fails_iff:
  "(length_checker password st = fail_with reason_length st \<longleftrightarrow> length password \<le> 8)
   \<and> (length_checker password st = st \<longleftrightarrow> 9 \<le> length password)
   \<and> (length password = 8 \<longrightarrow> length_checker password st = fail_with reason_length st)
   \<and> (9 \<le> length password \<longrightarrow> length_checker password st = st)
   \<and> length_checker [] st = fail_with reason_length st
   \<and> (length password \<le> 8 \<longrightarrow>
        (\<exists>rest. failed_parameters (evaluate L username password) = reason_length # rest))
   \<and> (\<exists>rest. out_failed (program L raw_username []) = reason_length # rest)"
proof -
  have neq: "fail_with reason_length st \<noteq> st" by (rule fail_with_neq)
  have a: "length_checker password st = fail_with reason_length st \<longleftrightarrow> length password \<le> 8"
    using neq by (auto simp: length_checker_def)
  have b: "length_checker password st = st \<longleftrightarrow> 9 \<le> length password"
    using neq by (auto simp: length_checker_def)
  have c: "length_checker [] st = fail_with reason_length st"
    by (simp add: length_checker_def)
  have d: "length password \<le> 8 \<longrightarrow>
        (\<exists>rest. failed_parameters (evaluate L username password) = reason_length # rest)"
    using evaluate_short_password [of password L username] by blast
  have e: "\<exists>rest. out_failed (program L raw_username []) = reason_length # rest"
    using evaluate_short_password [of "[]" L "strip L raw_username"]
    by (simp add: program_failed strip_Nil)
  from a b c d e show ?thesis by simp
qed

text \<open>
  The theorem at an 8-character and a 9-character password, and at username \<open>bob\<close> with
  the 8-character password \<open>B0b!2025\<close>.
\<close>

theorem length_fails_iff_witness:
  "length (lit ''abcdefgh'') = 8
   \<and> length_checker (lit ''abcdefgh'') init = fail_with reason_length init
   \<and> 9 \<le> length (lit ''abcdefghi'')
   \<and> length_checker (lit ''abcdefghi'') init = init
   \<and> hd (failed_parameters (evaluate ascii_lib (lit ''bob'') (lit ''B0b!2025''))) = reason_length"
proof -
  have h8: "length (lit ''abcdefgh'') = 8" by simp
  have h9: "9 \<le> length (lit ''abcdefghi'')" by simp
  have hb: "length (lit ''B0b!2025'') \<le> 8" by simp
  note t8 = length_fails_iff [of "lit ''abcdefgh''" init ascii_lib "[]" "[]"]
  note t9 = length_fails_iff [of "lit ''abcdefghi''" init ascii_lib "[]" "[]"]
  note tb = length_fails_iff [of "lit ''B0b!2025''" init ascii_lib "lit ''bob''" "[]"]
  from t8 h8 have a: "length_checker (lit ''abcdefgh'') init = fail_with reason_length init"
    by blast
  from t9 h9 have b: "length_checker (lit ''abcdefghi'') init = init" by blast
  from tb hb have "\<exists>rest. failed_parameters (evaluate ascii_lib (lit ''bob'') (lit ''B0b!2025''))
      = reason_length # rest" by blast
  then have c: "hd (failed_parameters (evaluate ascii_lib (lit ''bob'') (lit ''B0b!2025'')))
      = reason_length" by auto
  from h8 h9 a b c show ?thesis by blast
qed

subsection \<open>Check 2: letter and special character\<close>

text \<open>
  Claim C5. The letter-and-special check fails if and only if the password does not
  contain both an ASCII letter (\<open>a\<close> to \<open>z\<close> or \<open>A\<close> to \<open>Z\<close>) and one of the characters
  \<open>!\<close>, \<open>@\<close>, \<open>$\<close>, \<open>?\<close>. A password made of digits and these special characters only
  fails it, and so does a password made of letters only.
\<close>

theorem combine_fails_iff:
  "(combine_checker password st = fail_with reason_combine st \<longleftrightarrow>
      \<not> ((\<exists>c\<in>set password. between_a_z c \<or> between_A_Z c)
         \<and> (\<exists>c\<in>set password. c \<in> {ch CHR ''!'', ch CHR ''@'', ch CHR ''$'', ch CHR ''?''})))
   \<and> (combine_checker password st = st \<longleftrightarrow>
      (\<exists>c\<in>set password. between_a_z c \<or> between_A_Z c)
      \<and> (\<exists>c\<in>set password. c \<in> {ch CHR ''!'', ch CHR ''@'', ch CHR ''$'', ch CHR ''?''}))
   \<and> ((\<forall>c\<in>set password.
          between_0_9 c \<or> c \<in> {ch CHR ''!'', ch CHR ''@'', ch CHR ''$'', ch CHR ''?''})
        \<longrightarrow> combine_checker password st = fail_with reason_combine st)
   \<and> ((\<forall>c\<in>set password. between_a_z c \<or> between_A_Z c)
        \<longrightarrow> combine_checker password st = fail_with reason_combine st)"
proof -
  let ?letter = "\<exists>c\<in>set password. between_a_z c \<or> between_A_Z c"
  let ?S = "{ch CHR ''!'', ch CHR ''@'', ch CHR ''$'', ch CHR ''?''}"
  let ?special = "\<exists>c\<in>set password. c \<in> ?S"
  have neq: "fail_with reason_combine st \<noteq> st" by (rule fail_with_neq)
  have l: "check_letter password \<longleftrightarrow> ?letter" by (rule check_letter_iff)
  have s: "check_special password \<longleftrightarrow> ?special"
    unfolding check_special_iff set_specials ..
  have a: "combine_checker password st = fail_with reason_combine st \<longleftrightarrow> \<not> (?letter \<and> ?special)"
    unfolding combine_checker_def l s using neq by auto
  have b: "combine_checker password st = st \<longleftrightarrow> ?letter \<and> ?special"
    unfolding combine_checker_def l s using neq by auto
  have c: "(\<forall>c\<in>set password. between_0_9 c \<or> c \<in> ?S) \<longrightarrow> \<not> ?letter"
    using digit_not_letter special_not_letter by blast
  have d: "(\<forall>c\<in>set password. between_a_z c \<or> between_A_Z c) \<longrightarrow> \<not> ?special"
    using special_not_letter by blast
  from a b c d show ?thesis by blast
qed

text \<open>
  The theorem at \<open>12345678!\<close> (digits and a special character) and at \<open>Password\<close>
  (letters only).
\<close>

theorem combine_fails_iff_witness:
  "list_all (\<lambda>c. between_0_9 c \<or> c \<in> {ch CHR ''!'', ch CHR ''@'', ch CHR ''$'', ch CHR ''?''})
     (lit ''12345678!'')
   \<and> combine_checker (lit ''12345678!'') init = fail_with reason_combine init
   \<and> list_all (\<lambda>c. between_a_z c \<or> between_A_Z c) (lit ''Password'')
   \<and> combine_checker (lit ''Password'') init = fail_with reason_combine init"
proof -
  have h1: "\<forall>c\<in>set (lit ''12345678!'').
      between_0_9 c \<or> c \<in> {ch CHR ''!'', ch CHR ''@'', ch CHR ''$'', ch CHR ''?''}"
    by (simp add: between_0_9_def)
  have h2: "\<forall>c\<in>set (lit ''Password''). between_a_z c \<or> between_A_Z c"
    by (simp add: between_a_z_def between_A_Z_def)
  from combine_fails_iff [of "lit ''12345678!''" init] h1
  have a: "combine_checker (lit ''12345678!'') init = fail_with reason_combine init" by blast
  from combine_fails_iff [of "lit ''Password''" init] h2
  have b: "combine_checker (lit ''Password'') init = fail_with reason_combine init" by blast
  from h1 h2 a b show ?thesis unfolding list_all_iff by blast
qed

subsection \<open>Check 4: case mixing\<close>

text \<open>
  Claim C6. The case check fails if and only if the password contains an ASCII letter
  and its ASCII letters are all lowercase or all uppercase. A password without any
  letter passes it, whatever the other checks do.
\<close>

theorem case_fails_iff:
  "(case_checker password st = fail_with reason_case st \<longleftrightarrow>
      (\<exists>c\<in>set password. between_a_z c \<or> between_A_Z c)
      \<and> ((\<forall>c\<in>set password. between_a_z c \<or> between_A_Z c \<longrightarrow> between_a_z c)
         \<or> (\<forall>c\<in>set password. between_a_z c \<or> between_A_Z c \<longrightarrow> between_A_Z c)))
   \<and> (case_checker password st = st \<longleftrightarrow>
      \<not> ((\<exists>c\<in>set password. between_a_z c \<or> between_A_Z c)
         \<and> ((\<forall>c\<in>set password. between_a_z c \<or> between_A_Z c \<longrightarrow> between_a_z c)
            \<or> (\<forall>c\<in>set password. between_a_z c \<or> between_A_Z c \<longrightarrow> between_A_Z c))))
   \<and> ((\<forall>c\<in>set password. \<not> (between_a_z c \<or> between_A_Z c))
        \<longrightarrow> case_checker password st = st)"
proof -
  let ?lo = "\<exists>c\<in>set password. between_a_z c"
  let ?up = "\<exists>c\<in>set password. between_A_Z c"
  let ?one_case = "(\<exists>c\<in>set password. between_a_z c \<or> between_A_Z c)
      \<and> ((\<forall>c\<in>set password. between_a_z c \<or> between_A_Z c \<longrightarrow> between_a_z c)
         \<or> (\<forall>c\<in>set password. between_a_z c \<or> between_A_Z c \<longrightarrow> between_A_Z c))"
  have neq: "fail_with reason_case st \<noteq> st" by (rule fail_with_neq)
  have cond: "(?lo \<or> ?up) \<and> \<not> (?lo \<and> ?up) \<longleftrightarrow> ?one_case"
    using not_both_cases by blast
  have a: "case_checker password st = fail_with reason_case st \<longleftrightarrow> (?lo \<or> ?up) \<and> \<not> (?lo \<and> ?up)"
    unfolding case_checker_def check_lower_iff check_upper_iff using neq by auto
  have b: "case_checker password st = st \<longleftrightarrow> \<not> ((?lo \<or> ?up) \<and> \<not> (?lo \<and> ?up))"
    unfolding case_checker_def check_lower_iff check_upper_iff using neq by auto
  have c: "(\<forall>c\<in>set password. \<not> (between_a_z c \<or> between_A_Z c)) \<longrightarrow> \<not> ?one_case"
    by blast
  from a b c show ?thesis unfolding cond by blast
qed

text \<open>
  The theorem at \<open>1234!\<close>, which has no letter and passes this check although it fails
  the length check, at an all-lowercase and an all-uppercase password, and at a mixed one.
\<close>

theorem case_fails_iff_witness:
  "list_all (\<lambda>c. \<not> (between_a_z c \<or> between_A_Z c)) (lit ''1234!'')
   \<and> case_checker (lit ''1234!'') init = init
   \<and> length_checker (lit ''1234!'') init \<noteq> init
   \<and> case_checker (lit ''alice123'') init = fail_with reason_case init
   \<and> case_checker (lit ''ALICE123'') init = fail_with reason_case init
   \<and> case_checker (lit ''Alice123'') init = init"
proof -
  have h: "\<forall>c\<in>set (lit ''1234!''). \<not> (between_a_z c \<or> between_A_Z c)"
    by (simp add: between_a_z_def between_A_Z_def)
  from case_fails_iff [of "lit ''1234!''" init] h
  have a: "case_checker (lit ''1234!'') init = init" by blast
  have b: "length_checker (lit ''1234!'') init \<noteq> init"
    using fail_with_neq [of reason_length init] by (simp add: length_checker_def)
  have c: "case_checker (lit ''alice123'') init = fail_with reason_case init"
    using case_fails_iff [of "lit ''alice123''" init]
    by (simp add: between_a_z_def between_A_Z_def)
  have d: "case_checker (lit ''ALICE123'') init = fail_with reason_case init"
    using case_fails_iff [of "lit ''ALICE123''" init]
    by (simp add: between_a_z_def between_A_Z_def)
  have e: "case_checker (lit ''Alice123'') init = init"
    using case_fails_iff [of "lit ''Alice123''" init]
    by (simp add: between_a_z_def between_A_Z_def)
  from h a b c d e show ?thesis unfolding list_all_iff by blast
qed

subsection \<open>Check 5: swapcase of the username\<close>

text \<open>
  Claim C7. The swapcase check fails if and only if the password differs from the
  username and equals \<open>username.swapcase()\<close>. On ASCII text \<open>swapcase\<close> turns every lowercase
  letter into its uppercase counterpart and every uppercase letter into its lowercase
  counterpart and keeps every other character, so for username \<open>Tom\<close> the password \<open>tOM\<close>
  fails this check. The identity check (check 3) and this check never both fail on the
  same username and password, whatever states they start from.
\<close>

theorem swapcase_fails_iff:
  "(swapcase_checker L username password st = fail_with reason_swapcase st \<longleftrightarrow>
      password \<noteq> username \<and> password = str_swapcase L username)
   \<and> (swapcase_checker L username password st = st \<longleftrightarrow>
      \<not> (password \<noteq> username \<and> password = str_swapcase L username))
   \<and> \<not> (username_checker username password st1 \<noteq> st1
        \<and> swapcase_checker L username password st2 \<noteq> st2)
   \<and> str_swapcase ascii_lib username =
       map (\<lambda>c. if between_a_z c then c - 32 else if between_A_Z c then c + 32 else c) username
   \<and> str_swapcase ascii_lib (lit ''Tom'') = lit ''tOM''
   \<and> swapcase_checker ascii_lib (lit ''Tom'') (lit ''tOM'') st = fail_with reason_swapcase st"
proof -
  have neq: "fail_with reason_swapcase st \<noteq> st" by (rule fail_with_neq)
  have a: "swapcase_checker L username password st = fail_with reason_swapcase st \<longleftrightarrow>
      password \<noteq> username \<and> password = str_swapcase L username"
    unfolding swapcase_checker_def using neq by auto
  have b: "swapcase_checker L username password st = st \<longleftrightarrow>
      \<not> (password \<noteq> username \<and> password = str_swapcase L username)"
    unfolding swapcase_checker_def using neq by auto
  have c: "\<not> (username_checker username password st1 \<noteq> st1
        \<and> swapcase_checker L username password st2 \<noteq> st2)"
    by (auto simp: username_checker_def swapcase_checker_def)
  have d: "str_swapcase ascii_lib (lit ''Tom'') = lit ''tOM''"
    by (simp add: ascii_swapcase_map between_a_z_def between_A_Z_def)
  have e: "swapcase_checker ascii_lib (lit ''Tom'') (lit ''tOM'') st = fail_with reason_swapcase st"
    unfolding swapcase_checker_def d by simp
  from a b c d e ascii_swapcase_map [of username] show ?thesis by blast
qed

text \<open>
  The theorem at username \<open>Tom\<close>: password \<open>tOM\<close> fails the swapcase check and passes the
  identity check; password \<open>Tom\<close> fails the identity check and passes the swapcase check.
\<close>

theorem swapcase_fails_iff_witness:
  "swapcase_checker ascii_lib (lit ''Tom'') (lit ''tOM'') init = fail_with reason_swapcase init
   \<and> username_checker (lit ''Tom'') (lit ''tOM'') init = init
   \<and> swapcase_checker ascii_lib (lit ''Tom'') (lit ''Tom'') init = init
   \<and> username_checker (lit ''Tom'') (lit ''Tom'') init \<noteq> init"
proof -
  note t = swapcase_fails_iff [of ascii_lib "lit ''Tom''" "lit ''tOM''" init init init]
  note u = swapcase_fails_iff [of ascii_lib "lit ''Tom''" "lit ''Tom''" init init init]
  from t have a: "swapcase_checker ascii_lib (lit ''Tom'') (lit ''tOM'') init
      = fail_with reason_swapcase init" by blast
  have "fail_with reason_swapcase init \<noteq> init" by (rule fail_with_neq)
  with a have a': "swapcase_checker ascii_lib (lit ''Tom'') (lit ''tOM'') init \<noteq> init" by simp
  from t a' have b: "username_checker (lit ''Tom'') (lit ''tOM'') init = init" by blast
  from u have c: "swapcase_checker ascii_lib (lit ''Tom'') (lit ''Tom'') init = init" by blast
  have d: "username_checker (lit ''Tom'') (lit ''Tom'') init \<noteq> init"
    using fail_with_neq [of reason_username init] by (simp add: username_checker_def)
  from a b c d show ?thesis by blast
qed

subsection \<open>Check 6: symbols replacing letters\<close>

text \<open>
  Claim C8. The symbol check fails if and only if the password contains one of the
  characters \<open>@\<close>, \<open>$\<close>, \<open>!\<close>, \<open>0\<close> and one of the two normalised forms of the lowercased
  password (\<open>@\<close> to \<open>a\<close>, \<open>$\<close> to \<open>s\<close>, \<open>0\<close> to \<open>o\<close>, and \<open>!\<close> to \<open>i\<close> in the first form, to
  \<open>l\<close> in the second) equals the lowercased username. Both forms are compared: password
  \<open>a!\<close> fails against username \<open>ai\<close> through the first form only, and against username
  \<open>al\<close> through the second form only.
\<close>

theorem symbol_fails_iff:
  "(symbol_checker L username password st = fail_with reason_symbols st \<longleftrightarrow>
      (\<exists>c\<in>set password. c \<in> {ch CHR ''@'', ch CHR ''$'', ch CHR ''!'', ch CHR ''0''})
      \<and> (spec_norm_symbols (ch CHR ''i'') (str_lower L password) = str_lower L username
         \<or> spec_norm_symbols (ch CHR ''l'') (str_lower L password) = str_lower L username))
   \<and> (symbol_checker L username password st = st \<longleftrightarrow>
      \<not> ((\<exists>c\<in>set password. c \<in> {ch CHR ''@'', ch CHR ''$'', ch CHR ''!'', ch CHR ''0''})
         \<and> (spec_norm_symbols (ch CHR ''i'') (str_lower L password) = str_lower L username
            \<or> spec_norm_symbols (ch CHR ''l'') (str_lower L password) = str_lower L username)))
   \<and> symbol_checker ascii_lib (lit ''ai'') (lit ''a!'') st = fail_with reason_symbols st
   \<and> spec_norm_symbols (ch CHR ''l'') (str_lower ascii_lib (lit ''a!''))
       \<noteq> str_lower ascii_lib (lit ''ai'')
   \<and> symbol_checker ascii_lib (lit ''al'') (lit ''a!'') st = fail_with reason_symbols st
   \<and> spec_norm_symbols (ch CHR ''i'') (str_lower ascii_lib (lit ''a!''))
       \<noteq> str_lower ascii_lib (lit ''al'')"
proof -
  let ?used = "\<exists>c\<in>set password. c \<in> {ch CHR ''@'', ch CHR ''$'', ch CHR ''!'', ch CHR ''0''}"
  let ?ni = "spec_norm_symbols (ch CHR ''i'') (str_lower L password)"
  let ?nl = "spec_norm_symbols (ch CHR ''l'') (str_lower L password)"
  have neq: "fail_with reason_symbols st \<noteq> st" by (rule fail_with_neq)
  have cond: "used_symbols password
         \<and> (p_norm_i L password = u_low L username \<or> p_norm_l L password = u_low L username)
      \<longleftrightarrow> ?used \<and> (?ni = str_lower L username \<or> ?nl = str_lower L username)"
    unfolding used_symbols_iff p_norm_i_def p_norm_l_def p_low_def u_low_def
      translate_t_i translate_t_l ..
  have a: "symbol_checker L username password st = fail_with reason_symbols st \<longleftrightarrow>
      ?used \<and> (?ni = str_lower L username \<or> ?nl = str_lower L username)"
    unfolding symbol_checker_def cond using neq by auto
  have b: "symbol_checker L username password st = st \<longleftrightarrow>
      \<not> (?used \<and> (?ni = str_lower L username \<or> ?nl = str_lower L username))"
    unfolding symbol_checker_def cond using neq by auto
  have low: "str_lower ascii_lib s = map ascii_lower s" for s
    by (simp add: ascii_lib_def)
  have c: "symbol_checker ascii_lib (lit ''ai'') (lit ''a!'') st = fail_with reason_symbols st"
    by (simp add: symbol_checker_def used_symbols_def p_norm_i_def p_norm_l_def p_low_def
        u_low_def translate_def t_i_def t_l_def low ascii_lower_def between_A_Z_def)
  have d: "spec_norm_symbols (ch CHR ''l'') (str_lower ascii_lib (lit ''a!''))
       \<noteq> str_lower ascii_lib (lit ''ai'')"
    by (simp add: spec_norm_symbols_def low ascii_lower_def between_A_Z_def)
  have e: "symbol_checker ascii_lib (lit ''al'') (lit ''a!'') st = fail_with reason_symbols st"
    by (simp add: symbol_checker_def used_symbols_def p_norm_i_def p_norm_l_def p_low_def
        u_low_def translate_def t_i_def t_l_def low ascii_lower_def between_A_Z_def)
  have f: "spec_norm_symbols (ch CHR ''i'') (str_lower ascii_lib (lit ''a!''))
       \<noteq> str_lower ascii_lib (lit ''al'')"
    by (simp add: spec_norm_symbols_def low ascii_lower_def between_A_Z_def)
  from a b c d e f show ?thesis by blast
qed

text \<open>
  The theorem at username \<open>Bill\<close> with password \<open>B!ll\<close> (fails), at username \<open>bob\<close> with
  password \<open>B0b!2025\<close> (symbols used, no match: passes) and at a password without any of
  the four symbols (passes).
\<close>

theorem symbol_fails_iff_witness:
  "symbol_checker ascii_lib (lit ''Bill'') (lit ''B!ll'') init = fail_with reason_symbols init
   \<and> symbol_checker ascii_lib (lit ''bob'') (lit ''B0b!2025'') init = init
   \<and> symbol_checker ascii_lib (lit ''alice'') (lit ''alice'') init = init"
proof -
  have low: "str_lower ascii_lib s = map ascii_lower s" for s
    by (simp add: ascii_lib_def)
  have a: "symbol_checker ascii_lib (lit ''Bill'') (lit ''B!ll'') init
      = fail_with reason_symbols init"
    using symbol_fails_iff [of ascii_lib "lit ''Bill''" "lit ''B!ll''" init]
    by (simp add: spec_norm_symbols_def low ascii_lower_def between_A_Z_def)
  have b: "symbol_checker ascii_lib (lit ''bob'') (lit ''B0b!2025'') init = init"
    using symbol_fails_iff [of ascii_lib "lit ''bob''" "lit ''B0b!2025''" init]
    by (simp add: spec_norm_symbols_def low ascii_lower_def between_A_Z_def)
  have c: "symbol_checker ascii_lib (lit ''alice'') (lit ''alice'') init = init"
    using symbol_fails_iff [of ascii_lib "lit ''alice''" "lit ''alice''" init]
    by (simp add: spec_norm_symbols_def low ascii_lower_def between_A_Z_def)
  from a b c show ?thesis by blast
qed

subsection \<open>Check 7: common passwords\<close>

text \<open>
  Claim C9. The common-password check fails if and only if the lowercased password is
  one of the ten passwords of the denylist or, when it is not, the lowercased password
  with \<open>@\<close> to \<open>a\<close>, \<open>$\<close> to \<open>s\<close>, \<open>0\<close> to \<open>o\<close> and every non-alphanumeric character removed
  is \<open>password\<close>. The two branches exclude each other: the check lowers the score by at
  most 1 and appends at most one reason. The password \<open>password\<close> satisfies both
  conditions and is penalised once.
\<close>

theorem common_fails_iff:
  "(let denylist =
      {lit ''123456'', lit ''12345678'', lit ''123456789'', lit ''12345'', lit ''111111'',
       lit ''qwerty'', lit ''asdfgh'', lit ''zxcvbnm'', lit ''password'', lit ''admin''};
        low = str_lower L password;
        alnum = filter (str_isalnum L) (spec_norm_common low)
    in (common_checker L password st = fail_with reason_common st \<longleftrightarrow>
          low \<in> denylist \<or> (low \<notin> denylist \<and> alnum = lit ''password''))
     \<and> (common_checker L password st = st \<longleftrightarrow>
          \<not> (low \<in> denylist \<or> (low \<notin> denylist \<and> alnum = lit ''password'')))
     \<and> score st - 1 \<le> score (common_checker L password st)
     \<and> length (failed_parameters (common_checker L password st))
          \<le> length (failed_parameters st) + 1)
   \<and> str_lower ascii_lib (lit ''password'') \<in> common_pw
   \<and> filter (str_isalnum ascii_lib) (spec_norm_common (str_lower ascii_lib (lit ''password'')))
       = lit ''password''
   \<and> common_checker ascii_lib (lit ''password'') st = fail_with reason_common st"
proof -
  let ?D = "{lit ''123456'', lit ''12345678'', lit ''123456789'', lit ''12345'', lit ''111111'',
       lit ''qwerty'', lit ''asdfgh'', lit ''zxcvbnm'', lit ''password'', lit ''admin''}"
  let ?low = "str_lower L password"
  let ?alnum = "filter (str_isalnum L) (spec_norm_common ?low)"
  let ?c = "?low \<in> ?D \<or> (?low \<notin> ?D \<and> ?alnum = lit ''password'')"
  have neq: "fail_with reason_common st \<noteq> st" by (rule fail_with_neq)
  have cond: "pw_low L password \<in> common_pw \<or> pw_norm_alnum L password = lit ''password''
      \<longleftrightarrow> ?c"
    unfolding pw_low_def pw_norm_alnum_def pw_norm_def translate_t_pw common_pw_set
    by (rule disj_excl)
  have flat: "common_checker L password st = (if ?c then fail_with reason_common st else st)"
    unfolding common_checker_flat cond ..
  have a: "common_checker L password st = fail_with reason_common st \<longleftrightarrow> ?c"
    unfolding flat by (rule branch_taken(1))
  have b: "common_checker L password st = st \<longleftrightarrow> \<not> ?c"
    unfolding flat by (rule branch_taken(2))
  have ok: "step_ok (common_checker L password)" by (rule step_ok_common)
  then consider "common_checker L password st = st"
    | reason where "common_checker L password st = fail_with reason st"
    unfolding step_ok_def by blast
  then have cd: "score st - 1 \<le> score (common_checker L password st)
      \<and> length (failed_parameters (common_checker L password st))
          \<le> length (failed_parameters st) + 1"
  proof cases
    case 1
    show ?thesis unfolding 1 by simp
  next
    case 2
    show ?thesis unfolding 2 by (simp add: score_fail_with failed_fail_with)
  qed
  from cd have c: "score st - 1 \<le> score (common_checker L password st)" ..
  from cd have d: "length (failed_parameters (common_checker L password st))
          \<le> length (failed_parameters st) + 1" ..
  have low: "str_lower ascii_lib s = map ascii_lower s" for s
    by (simp add: ascii_lib_def)
  have e: "str_lower ascii_lib (lit ''password'') \<in> common_pw"
    by (simp add: common_pw_def low ascii_lower_def between_A_Z_def)
  have f: "filter (str_isalnum ascii_lib) (spec_norm_common (str_lower ascii_lib (lit ''password'')))
       = lit ''password''"
    by (simp add: spec_norm_common_def low ascii_lower_def between_A_Z_def ascii_lib_def
        ascii_isalnum_def between_a_z_def between_0_9_def)
  have g: "common_checker ascii_lib (lit ''password'') st = fail_with reason_common st"
    using e by (simp add: common_checker_def pw_low_def)
  show ?thesis
    unfolding Let_def using a b c d e f g by (intro conjI)
qed

text \<open>
  The theorem at \<open>P@$$w0rd!\<close> (not in the denylist, normalises to \<open>password\<close>), at
  \<open>Admin\<close> (in the denylist once lowercased) and at \<open>alice123\<close> (passes).
\<close>

theorem common_fails_iff_witness:
  "str_lower ascii_lib (lit ''P@$$w0rd!'') \<notin> common_pw
   \<and> common_checker ascii_lib (lit ''P@$$w0rd!'') init = fail_with reason_common init
   \<and> common_checker ascii_lib (lit ''Admin'') init = fail_with reason_common init
   \<and> common_checker ascii_lib (lit ''alice123'') init = init"
proof -
  have low: "str_lower ascii_lib s = map ascii_lower s" for s
    by (simp add: ascii_lib_def)
  have alnum: "str_isalnum ascii_lib = ascii_isalnum"
    by (simp add: ascii_lib_def)
  have a: "str_lower ascii_lib (lit ''P@$$w0rd!'') \<notin> common_pw"
    by (simp add: common_pw_def low ascii_lower_def between_A_Z_def)
  have b: "common_checker ascii_lib (lit ''P@$$w0rd!'') init = fail_with reason_common init"
    using common_fails_iff [of ascii_lib "lit ''P@$$w0rd!''" init, unfolded Let_def]
    by (simp add: spec_norm_common_def low alnum ascii_lower_def ascii_isalnum_def
        between_A_Z_def between_a_z_def between_0_9_def)
  have c: "common_checker ascii_lib (lit ''Admin'') init = fail_with reason_common init"
    using common_fails_iff [of ascii_lib "lit ''Admin''" init, unfolded Let_def]
    by (simp add: low ascii_lower_def between_A_Z_def)
  have d: "common_checker ascii_lib (lit ''alice123'') init = init"
    using common_fails_iff [of ascii_lib "lit ''alice123''" init, unfolded Let_def]
    by (simp add: spec_norm_common_def low alnum ascii_lower_def ascii_isalnum_def
        between_A_Z_def between_a_z_def between_0_9_def)
  from a b c d show ?thesis by (intro conjI)
qed

subsection \<open>Stripping the inputs\<close>

text \<open>
  Claim C10. Both inputs are stripped of leading and trailing whitespace before any
  check runs: for all raw inputs the output of the script (score, level, failure list)
  is its output on the stripped username and password. A 9-character password that ends
  in a space is evaluated as a stripped password of at most 8 characters, so the length
  check fails and its reason comes first; when the password has no other whitespace at
  its ends (its first and its eighth character are not whitespace) the stripped password
  is exactly its first 8 characters.
\<close>

theorem strip_inputs:
  "program L raw_username raw_password
     = program L (strip L raw_username) (strip L raw_password)
   \<and> (str_isspace L (ch CHR '' '') \<and> length raw_password = 9
        \<and> last raw_password = ch CHR '' ''
      \<longrightarrow> length (strip L raw_password) \<le> 8
          \<and> (\<exists>rest. out_failed (program L raw_username raw_password) = reason_length # rest))
   \<and> (str_isspace L (ch CHR '' '') \<and> length raw_password = 9
        \<and> last raw_password = ch CHR '' ''
        \<and> \<not> str_isspace L (hd raw_password) \<and> \<not> str_isspace L (raw_password ! 7)
      \<longrightarrow> strip L raw_password = butlast raw_password \<and> length (strip L raw_password) = 8)
   \<and> strip ascii_lib (lit ''abcdefgh '') = lit ''abcdefgh''
   \<and> program ascii_lib raw_username (lit ''abcdefgh '')
       = program ascii_lib raw_username (lit ''abcdefgh'')"
proof -
  have a: "program L raw_username raw_password
     = program L (strip L raw_username) (strip L raw_password)"
    by (rule program_strip)
  have b: "length (strip L raw_password) \<le> 8
          \<and> (\<exists>rest. out_failed (program L raw_username raw_password) = reason_length # rest)"
    if sp: "str_isspace L (ch CHR '' '')" and len: "length raw_password = 9"
      and lst: "last raw_password = ch CHR '' ''"
  proof -
    have ne: "raw_password \<noteq> []" using len by auto
    have "str_isspace L (last raw_password)" using sp lst by simp
    with ne have "length (strip L raw_password) < length raw_password"
      by (rule length_strip_less)
    with len have short: "length (strip L raw_password) \<le> 8" by simp
    then have "\<exists>rest. failed_parameters
        (evaluate L (strip L raw_username) (strip L raw_password)) = reason_length # rest"
      by (rule evaluate_short_password)
    with short show ?thesis by (simp add: program_failed)
  qed
  have c: "strip L raw_password = butlast raw_password \<and> length (strip L raw_password) = 8"
    if sp: "str_isspace L (ch CHR '' '')" and len: "length raw_password = 9"
      and lst: "last raw_password = ch CHR '' ''"
      and h: "\<not> str_isspace L (hd raw_password)" and n7: "\<not> str_isspace L (raw_password ! 7)"
  proof -
    have ne: "raw_password \<noteq> []" using len by auto
    have bl: "length (butlast raw_password) = 8" using len by simp
    have bne: "butlast raw_password \<noteq> []"
    proof
      assume "butlast raw_password = []"
      then have "length (butlast raw_password) = 0" by (simp only: list.size)
      with bl show False by simp
    qed
    have "last (butlast raw_password) = butlast raw_password ! 7"
      using bne bl by (simp add: last_conv_nth)
    also have "\<dots> = raw_password ! 7" using bl by (simp add: nth_butlast)
    finally have l7: "\<not> str_isspace L (last (butlast raw_password))" using n7 by simp
    have "str_isspace L (last raw_password)" using sp lst by simp
    then have "strip L raw_password = butlast raw_password"
      using ne bne h l7 by (simp add: strip_one_trailing)
    with bl show ?thesis by simp
  qed
  have d: "strip ascii_lib (lit ''abcdefgh '') = lit ''abcdefgh''"
    by (simp add: strip_def ascii_lib_def ascii_isspace_def)
  have e: "program ascii_lib raw_username (lit ''abcdefgh '')
       = program ascii_lib raw_username (lit ''abcdefgh'')"
    using program_strip [of ascii_lib raw_username "lit ''abcdefgh ''"]
      program_strip [of ascii_lib raw_username "lit ''abcdefgh''"]
    by (simp add: strip_def ascii_lib_def ascii_isspace_def)
  from a b c d e show ?thesis by blast
qed

text \<open>
  The theorem at the raw username \<open> bob\<close> and the raw 9-character password \<open>my pass1 \<close>.
\<close>

theorem strip_inputs_witness:
  "str_isspace ascii_lib (ch CHR '' '')
   \<and> length (lit ''my pass1 '') = 9 \<and> last (lit ''my pass1 '') = ch CHR '' ''
   \<and> \<not> str_isspace ascii_lib (hd (lit ''my pass1 ''))
   \<and> \<not> str_isspace ascii_lib (lit ''my pass1 '' ! 7)
   \<and> strip ascii_lib (lit ''my pass1 '') = lit ''my pass1''
   \<and> hd (out_failed (program ascii_lib (lit '' bob'') (lit ''my pass1 ''))) = reason_length
   \<and> program ascii_lib (lit '' bob'') (lit ''my pass1 '')
       = program ascii_lib (strip ascii_lib (lit '' bob'')) (strip ascii_lib (lit ''my pass1 ''))"
proof -
  let ?u = "lit '' bob''" and ?p = "lit ''my pass1 ''"
  note t = strip_inputs [of ascii_lib ?u ?p]
  have h1: "str_isspace ascii_lib (ch CHR '' '')"
    by (simp add: ascii_lib_def ascii_isspace_def)
  have h2: "length ?p = 9" by simp
  have h3: "last ?p = ch CHR '' ''" by simp
  have h4: "\<not> str_isspace ascii_lib (hd ?p)"
    by (simp add: ascii_lib_def ascii_isspace_def)
  have h5: "\<not> str_isspace ascii_lib (?p ! 7)"
    by (simp add: ascii_lib_def ascii_isspace_def)
  from t h1 h2 h3 h4 h5 have "strip ascii_lib ?p = butlast ?p" by blast
  then have a: "strip ascii_lib ?p = lit ''my pass1''" by simp
  from t h1 h2 h3 have "\<exists>rest. out_failed (program ascii_lib ?u ?p) = reason_length # rest"
    by blast
  then have b: "hd (out_failed (program ascii_lib ?u ?p)) = reason_length" by auto
  from t have c: "program ascii_lib ?u ?p
      = program ascii_lib (strip ascii_lib ?u) (strip ascii_lib ?p)" by blast
  from h1 h2 h3 h4 h5 a b c show ?thesis by blast
qed

end
